theory Spec2Isabelle
  imports Main
begin

section \<open>RDF terms, triples and rows\<close>

text \<open>
  The three kinds of rdflib term that \<open>load_parquet\<close> constructs. Two terms are equal
  exactly when they are of the same kind and carry the same text, so a datatype is the
  right model. A literal carries its lexical form, an optional datatype IRI and an
  optional language tag.
\<close>

datatype node =
    URIRef string
  | BNode string
  | Literal string "string option" "string option"

type_synonym triple = "node \<times> node \<times> node"

text \<open>
  One row of the data frame: the columns \<open>_COL_NAMES\<close>, each holding text. Text is a
  list of characters; the code only compares characters with \<open><\<close>, \<open>>\<close>, \<open>_\<close>,
  \<open>:\<close> and the two quotes and cuts text at positions, so nothing depends on the
  alphabet.
\<close>

record row =
  subject :: string
  predicate :: string
  object :: string

datatype error = ValueError

section \<open>The Python string and sequence operations the code uses\<close>

definition dquote :: char where
  "dquote = CHR 0x22"

definition squote :: char where
  "squote = CHR 0x27"

definition startswith :: "string \<Rightarrow> string \<Rightarrow> bool" where
  "startswith s pre \<longleftrightarrow> take (length pre) s = pre"

definition endswith :: "string \<Rightarrow> string \<Rightarrow> bool" where
  "endswith s suf \<longleftrightarrow> length suf \<le> length s \<and> drop (length s - length suf) s = suf"

text \<open>
  A slice bound is clamped into \<open>0..n\<close>; a negative bound counts from the end.
  \<open>slice xs lo hi\<close> is \<open>xs[lo:hi]\<close> and \<open>slice_from xs lo\<close> is \<open>xs[lo:]\<close>.
\<close>

definition slice_index :: "nat \<Rightarrow> int \<Rightarrow> nat" where
  "slice_index n i = (if i < 0 then nat (max (i + int n) 0) else min (nat i) n)"

definition slice :: "'a list \<Rightarrow> int \<Rightarrow> int \<Rightarrow> 'a list" where
  "slice xs lo hi =
     (let a = slice_index (length xs) lo; b = slice_index (length xs) hi
      in take (b - a) (drop a xs))"

definition slice_from :: "'a list \<Rightarrow> int \<Rightarrow> 'a list" where
  "slice_from xs lo = drop (slice_index (length xs) lo) xs"

text \<open>\<open>strip s chars\<close> is \<open>s.strip(chars)\<close>: every leading and every trailing
  character that occurs in \<open>chars\<close> is removed.\<close>

definition strip :: "string \<Rightarrow> string \<Rightarrow> string" where
  "strip s chars =
     rev (dropWhile (\<lambda>c. c \<in> set chars) (rev (dropWhile (\<lambda>c. c \<in> set chars) s)))"

text \<open>\<open>range(start, stop, step)\<close>: a zero step raises \<open>ValueError\<close>.\<close>

function range_up :: "int \<Rightarrow> int \<Rightarrow> int \<Rightarrow> int list" where
  "range_up i stop step =
     (if 0 < step \<and> i < stop then i # range_up (i + step) stop step else [])"
  by pat_completeness auto
termination
  by (relation "measure (\<lambda>(i, stop, step). nat (stop - i))") auto

function range_down :: "int \<Rightarrow> int \<Rightarrow> int \<Rightarrow> int list" where
  "range_down i stop step =
     (if step < 0 \<and> stop < i then i # range_down (i + step) stop step else [])"
  by pat_completeness auto
termination
  by (relation "measure (\<lambda>(i, stop, step). nat (i - stop))") auto

declare range_up.simps [simp del]
declare range_down.simps [simp del]

definition range_py :: "int \<Rightarrow> int \<Rightarrow> int \<Rightarrow> error + int list" where
  "range_py start stop step =
     (if step = 0 then Inl ValueError
      else if 0 < step then Inr (range_up start stop step)
      else Inr (range_down start stop step))"

section \<open>Decoding one row (the body of the inner loop of \<open>load_parquet\<close>)\<close>

definition parse_subject :: "string \<Rightarrow> node" where
  "parse_subject s_str =
     (if startswith s_str ''<'' \<and> endswith s_str ''>'' then URIRef (slice s_str 1 (- 1))
      else if startswith s_str ''_:'' then BNode (slice_from s_str 2)
      else Literal s_str None None)"

definition parse_predicate :: "string \<Rightarrow> node" where
  "parse_predicate p_str =
     (if startswith p_str ''<'' \<and> endswith p_str ''>'' then URIRef (slice p_str 1 (- 1))
      else URIRef p_str)"

definition parse_object :: "string \<Rightarrow> node" where
  "parse_object o_str =
     (if startswith o_str ''<'' \<and> endswith o_str ''>'' then URIRef (slice o_str 1 (- 1))
      else if startswith o_str ''_:'' then BNode (slice_from o_str 2)
      else if startswith o_str [dquote] \<or> startswith o_str [squote]
        then Literal (strip o_str [dquote, squote]) None None
      else Literal o_str None None)"

definition decode_row :: "row \<Rightarrow> triple" where
  "decode_row r =
     (let s_str = subject r; p_str = predicate r; o_str = object r
      in (parse_subject s_str, parse_predicate p_str, parse_object o_str))"

section \<open>The graph objects\<close>

text \<open>
  A \<open>KnowledgeGraph\<close> object holds in its field \<open>g\<close> a reference to an rdflib graph,
  which is a set of triples. Both kinds of object live in a store, so that two wrappers
  may share one graph and the identity of the object a method returns can be stated.
\<close>

type_synonym addr = nat

record heap =
  g_of :: "addr \<Rightarrow> addr"
  triples_of :: "addr \<Rightarrow> triple set"

definition Graph_add :: "heap \<Rightarrow> addr \<Rightarrow> triple \<Rightarrow> heap" where
  "Graph_add h a t = h\<lparr>triples_of := (triples_of h)(a := insert t (triples_of h a))\<rparr>"

section \<open>\<open>load_parquet\<close>\<close>

text \<open>\<open>for s, p, o in triples: self.g.add((s, p, o))\<close>\<close>

fun add_triples :: "heap \<Rightarrow> addr \<Rightarrow> triple list \<Rightarrow> heap" where
  "add_triples h self [] = h"
| "add_triples h self (t # ts) = add_triples (Graph_add h (g_of h self) t) self ts"

text \<open>
  The outer loop, over the batch starts that \<open>range\<close> yields. Besides the store it
  threads the list of the triples handed to \<open>self.g.add\<close> so far, in call order.
\<close>

fun load_batches ::
  "row list \<Rightarrow> int \<Rightarrow> addr \<Rightarrow> int list \<Rightarrow> heap \<times> triple list \<Rightarrow> heap \<times> triple list" where
  "load_batches df batch_size self [] st = st"
| "load_batches df batch_size self (start # starts) (h, added) =
     (let total = int (length df);
          end = min (start + batch_size) total;
          batch = slice df start end;
          triples = map decode_row batch
      in load_batches df batch_size self starts (add_triples h self triples, added @ triples))"

definition load_parquet_run ::
  "heap \<Rightarrow> addr \<Rightarrow> row list \<Rightarrow> int \<Rightarrow> error + (heap \<times> triple list)" where
  "load_parquet_run h self df batch_size =
     (let total = int (length df)
      in case range_py 0 total batch_size of
           Inl e \<Rightarrow> Inl e
         | Inr starts \<Rightarrow> Inr (load_batches df batch_size self starts (h, [])))"

text \<open>What the caller sees: the store after the call and the returned reference.\<close>

definition load_parquet :: "heap \<Rightarrow> addr \<Rightarrow> row list \<Rightarrow> int \<Rightarrow> error + (heap \<times> addr)" where
  "load_parquet h self df batch_size =
     (case load_parquet_run h self df batch_size of
        Inl e \<Rightarrow> Inl e
      | Inr (h', added) \<Rightarrow> Inr (h', self))"

text \<open>The decoded triple sequence of a load: the triples added, in order.\<close>

definition DecodeBatch :: "heap \<Rightarrow> addr \<Rightarrow> row list \<Rightarrow> int \<Rightarrow> error + triple list" where
  "DecodeBatch h self df batch_size =
     (case load_parquet_run h self df batch_size of
        Inl e \<Rightarrow> Inl e
      | Inr (h', added) \<Rightarrow> Inr added)"

section \<open>\<open>save_parquet\<close>\<close>

text \<open>
  Modelled from the spec: the method \<open>n3\<close> of an rdflib term, which \<open>save_parquet\<close>
  calls on every term and which belongs to the wrapped library, not to this repository.
  An IRI is written between angle brackets, a blank node after the prefix \<open>_:\<close>, a
  literal as its lexical form between double quotes, followed by \<open>^^<datatype>\<close> if it
  has a datatype, or by \<open>@language\<close> if it has a language tag, or by nothing.
\<close>

fun n3 :: "node \<Rightarrow> string" where
  "n3 (URIRef v) = ''<'' @ v @ ''>''"
| "n3 (BNode i) = ''_:'' @ i"
| "n3 (Literal lexical dt lang) =
     [dquote] @ lexical @ [dquote] @
     (case dt of
        Some d \<Rightarrow> ''^^<'' @ d @ ''>''
      | None \<Rightarrow> (case lang of Some l \<Rightarrow> ''@'' @ l | None \<Rightarrow> []))"

text \<open>\<open>{self._COL_NAMES[i]: o.n3() for i, o in enumerate(triple)}\<close>\<close>

definition encode_row :: "triple \<Rightarrow> row" where
  "encode_row t =
     (case t of (s, p, ob) \<Rightarrow> \<lparr>subject = n3 s, predicate = n3 p, object = n3 ob\<rparr>)"

text \<open>The rows written by \<open>save_parquet\<close>, for the triples of \<open>self.g\<close> in the order
  in which iterating the graph yields them.\<close>

definition save_parquet :: "triple list \<Rightarrow> row list" where
  "save_parquet ts = map encode_row ts"

section \<open>Facts about the string operations\<close>

lemma startswith_single: "startswith s [c] \<longleftrightarrow> (\<exists>t. s = c # t)"
  by (cases s) (auto simp: startswith_def)

lemma endswith_single: "endswith s [c] \<longleftrightarrow> (\<exists>t. s = t @ [c])"
proof (cases s rule: rev_cases)
  case Nil
  then show ?thesis by (simp add: endswith_def)
next
  case (snoc t d)
  then show ?thesis by (auto simp: endswith_def)
qed

lemma startswith_pair: "startswith s [c, d] \<longleftrightarrow> (\<exists>t. s = c # d # t)"
proof (cases s)
  case Nil
  then show ?thesis by (simp add: startswith_def)
next
  case (Cons a t)
  then show ?thesis by (cases t) (auto simp: startswith_def)
qed

text \<open>A text starts with \<open><\<close> and ends with \<open>>\<close> exactly when it is some text
  enclosed in the two brackets; the brackets are then two different positions.\<close>

lemma angle_form:
  "startswith s ''<'' \<and> endswith s ''>'' \<longleftrightarrow> (\<exists>m. s = CHR ''<'' # m @ ''>'')"
proof
  assume a: "startswith s ''<'' \<and> endswith s ''>''"
  then obtain t where t: "s = CHR ''<'' # t" by (auto simp: startswith_single)
  from a obtain u where u: "s = u @ ''>''" by (auto simp: endswith_single)
  from t u have "u \<noteq> []" by auto
  with t u obtain m where "u = CHR ''<'' # m" by (cases u) auto
  with u show "\<exists>m. s = CHR ''<'' # m @ ''>''" by auto
next
  assume "\<exists>m. s = CHR ''<'' # m @ ''>''"
  then show "startswith s ''<'' \<and> endswith s ''>''"
    by (auto simp: startswith_single endswith_single)
qed

lemma slice_enclosed: "slice (c # m @ [d]) 1 (- 1) = m"
  by (simp add: slice_def slice_index_def)

lemma slice_from_two: "slice_from (c # d # t) 2 = t"
  by (simp add: slice_from_def slice_index_def)

text \<open>What the three parsers do with the bracketed and the prefixed form.\<close>

lemma parse_subject_angle: "parse_subject (CHR ''<'' # m @ ''>'') = URIRef m"
  using angle_form [of "CHR ''<'' # m @ ''>''"] slice_enclosed [of "CHR ''<''" m "CHR ''>''"]
  by (simp add: parse_subject_def)


lemma parse_object_angle: "parse_object (CHR ''<'' # m @ ''>'') = URIRef m"
  using angle_form [of "CHR ''<'' # m @ ''>''"] slice_enclosed [of "CHR ''<''" m "CHR ''>''"]
  by (simp add: parse_object_def)

lemma not_angle_blank: "\<not> startswith (CHR ''_'' # t) ''<''"
  by (simp add: startswith_def)

lemma parse_subject_blank: "parse_subject (''_:'' @ t) = BNode t"
  using startswith_pair [of "''_:'' @ t" "CHR ''_''" "CHR '':''"] slice_from_two [of "CHR ''_''" "CHR '':''" t]
  by (simp add: parse_subject_def not_angle_blank)

lemma parse_object_blank: "parse_object (''_:'' @ t) = BNode t"
  using startswith_pair [of "''_:'' @ t" "CHR ''_''" "CHR '':''"] slice_from_two [of "CHR ''_''" "CHR '':''" t]
  by (simp add: parse_object_def not_angle_blank)

lemma quote_not_angle: "dquote \<noteq> CHR ''<''" "squote \<noteq> CHR ''<''" "dquote \<noteq> CHR ''_''" "squote \<noteq> CHR ''_''"
  by (simp_all add: dquote_def squote_def)

lemma rev_dropWhile_decomp: "u = rev (dropWhile P (rev u)) @ rev (takeWhile P (rev u))"
proof -
  have "rev (takeWhile P (rev u) @ dropWhile P (rev u)) = rev (rev u)"
    by (simp only: takeWhile_dropWhile_id)
  then show ?thesis by (simp only: rev_append rev_rev_ident)
qed

lemma strip_decomp:
  "\<exists>pre post. s = pre @ strip s chars @ post \<and> set pre \<subseteq> set chars \<and> set post \<subseteq> set chars"
proof -
  let ?P = "\<lambda>c. c \<in> set chars"
  let ?u = "dropWhile ?P s"
  have 1: "s = takeWhile ?P s @ ?u" by simp
  have 2: "?u = strip s chars @ rev (takeWhile ?P (rev ?u))"
    unfolding strip_def by (rule rev_dropWhile_decomp)
  have 3: "set (takeWhile ?P s) \<subseteq> set chars" by (auto dest: set_takeWhileD)
  have 4: "set (rev (takeWhile ?P (rev ?u))) \<subseteq> set chars" by (auto dest: set_takeWhileD)
  from 1 2 have "s = takeWhile ?P s @ strip s chars @ rev (takeWhile ?P (rev ?u))" by simp
  with 3 4 show ?thesis by blast
qed

lemma strip_ends:
  assumes "strip s chars \<noteq> []"
  shows "hd (strip s chars) \<notin> set chars \<and> last (strip s chars) \<notin> set chars"
proof -
  let ?P = "\<lambda>c. c \<in> set chars"
  let ?u = "dropWhile ?P s"
  let ?w = "dropWhile ?P (rev ?u)"
  from assms have w: "?w \<noteq> []" by (simp add: strip_def)
  then have "\<not> ?P (hd ?w)" by (rule hd_dropWhile)
  with w have l: "last (strip s chars) \<notin> set chars" by (simp add: strip_def last_rev)
  from w have u: "?u \<noteq> []" by (metis dropWhile.simps(1) rev.simps(1))
  then have hu: "\<not> ?P (hd ?u)" by (rule hd_dropWhile)
  have "?u = strip s chars @ rev (takeWhile ?P (rev ?u))"
    unfolding strip_def by (rule rev_dropWhile_decomp)
  with assms have "hd ?u = hd (strip s chars)" by (metis hd_append2)
  with hu l show ?thesis by simp
qed

lemma strip_shorter:
  assumes "s = c # t" "c \<in> set chars"
  shows "length (strip s chars) < length s"
proof -
  have "length (strip s chars) \<le> length (dropWhile (\<lambda>c. c \<in> set chars) s)"
    using length_dropWhile_le [of "\<lambda>c. c \<in> set chars" "rev (dropWhile (\<lambda>c. c \<in> set chars) s)"]
    by (simp add: strip_def)
  also from assms have "\<dots> \<le> length t" by (simp add: length_dropWhile_le)
  finally show ?thesis using assms by simp
qed

section \<open>Facts about the loading loop\<close>

lemma g_of_Graph_add: "g_of (Graph_add h a t) = g_of h"
  by (simp add: Graph_add_def)

lemma g_of_add_triples: "g_of (add_triples h self ts) = g_of h"
  by (induction ts arbitrary: h) (simp_all add: g_of_Graph_add)

lemma triples_of_add_triples:
  "triples_of (add_triples h self ts) =
     (triples_of h)(g_of h self := triples_of h (g_of h self) \<union> set ts)"
proof (induction ts arbitrary: h)
  case Nil
  show ?case by simp
next
  case (Cons t ts)
  show ?case
    by (simp add: Cons.IH g_of_Graph_add) (auto simp: Graph_add_def fun_eq_iff)
qed

lemma add_triples_append:
  "add_triples h self (xs @ ys) = add_triples (add_triples h self xs) self ys"
  by (induction xs arbitrary: h) simp_all

text \<open>The loop adds, batch after batch, the decoded rows of each slice.\<close>

lemma load_batches_eq:
  "load_batches df k self starts (h, added) =
     (add_triples h self
        (concat (map (\<lambda>start. map decode_row (slice df start (min (start + k) (int (length df)))))
                     starts)),
      added @
        concat (map (\<lambda>start. map decode_row (slice df start (min (start + k) (int (length df)))))
                    starts))"
  by (induction starts arbitrary: h added) (simp_all add: Let_def add_triples_append)

text \<open>One batch followed by the rows after it is the rest of the frame.\<close>

lemma slice_batch:
  assumes "0 \<le> i" "0 < k"
  shows "slice df i (min (i + k) (int (length df))) @ drop (nat (i + k)) df = drop (nat i) df"
proof (cases "i + k \<le> int (length df)")
  case True
  with assms have "slice df i (min (i + k) (int (length df))) = take (nat k) (drop (nat i) df)"
    by (simp add: slice_def slice_index_def Let_def min_def nat_diff_distrib nat_add_distrib)
      linarith
  moreover from assms have "drop (nat (i + k)) df = drop (nat k) (drop (nat i) df)"
    by (simp add: nat_add_distrib add.commute)
  ultimately show ?thesis by (simp only: append_take_drop_id)
next
  case False
  with assms have "slice df i (min (i + k) (int (length df))) = drop (nat i) df"
    by (auto simp: slice_def slice_index_def Let_def min_def)
  moreover from False assms have "drop (nat (i + k)) df = []" by simp
  ultimately show ?thesis by simp
qed

lemma concat_batches:
  "0 < k \<Longrightarrow> 0 \<le> i \<Longrightarrow>
   concat (map (\<lambda>start. slice df start (min (start + k) (int (length df))))
               (range_up i (int (length df)) k)) = drop (nat i) df"
proof (induction i "int (length df)" k rule: range_up.induct)
  case (1 i step)
  show ?case
  proof (cases "i < int (length df)")
    case True
    with 1 have "concat (map (\<lambda>start. slice df start (min (start + step) (int (length df))))
               (range_up (i + step) (int (length df)) step)) = drop (nat (i + step)) df"
      by simp
    with True 1 show ?thesis
      by (subst range_up.simps) (simp add: slice_batch)
  next
    case False
    with 1 show ?thesis
      by (subst range_up.simps) simp
  qed
qed

lemma load_parquet_run_eq:
  assumes "1 \<le> k"
  shows "load_parquet_run h self df k =
           Inr (add_triples h self (map decode_row df), map decode_row df)"
proof -
  have "concat (map (\<lambda>start. map decode_row (slice df start (min (start + k) (int (length df)))))
               (range_up 0 (int (length df)) k))
        = map decode_row (concat (map (\<lambda>start. slice df start (min (start + k) (int (length df))))
               (range_up 0 (int (length df)) k)))"
    by (simp add: map_concat comp_def)
  also have "\<dots> = map decode_row df"
    using assms concat_batches [of k 0 df] by simp
  finally show ?thesis
    using assms by (simp add: load_parquet_run_def range_py_def load_batches_eq)
qed

lemma load_parquet_eq:
  "1 \<le> k \<Longrightarrow> load_parquet h self df k = Inr (add_triples h self (map decode_row df), self)"
  by (simp add: load_parquet_def load_parquet_run_eq)

lemma load_parquet_negative:
  "k < 0 \<Longrightarrow> load_parquet h self df k = Inr (h, self)"
  by (simp add: load_parquet_def load_parquet_run_def range_py_def range_down.simps)

lemma graph_after_add_triples:
  "triples_of (add_triples h self ts) (g_of (add_triples h self ts) self) =
     triples_of h (g_of h self) \<union> set ts"
  by (simp add: triples_of_add_triples g_of_add_triples)

section \<open>Batching\<close>

text \<open>
  Claim C1. For every sequence of rows and every batch size \<open>k \<ge> 1\<close>, also one larger
  than the number of rows, the loop of \<open>load_parquet\<close> decodes and adds the triples
  \<open>decode_row\<close> of the first row, of the second row, and so on: a sequence of the
  length of the input and in its order. The sequence is the same for any two batch
  sizes \<open>k\<close> and \<open>k'\<close>.
\<close>

theorem DecodeBatch_batch_size_invariant:
  assumes "1 \<le> k" and "1 \<le> k'"
  shows "DecodeBatch h self df k = Inr (map decode_row df)
       \<and> DecodeBatch h self df k' = DecodeBatch h self df k
       \<and> (\<exists>ts. DecodeBatch h self df k = Inr ts \<and> length ts = length df
              \<and> (\<forall>i < length df. ts ! i = decode_row (df ! i)))"
  using assms by (simp add: DecodeBatch_def load_parquet_run_eq)

theorem DecodeBatch_batch_size_invariant_witness:
  "(1::int) \<le> 2 \<and> (1::int) \<le> 7
   \<and> DecodeBatch \<lparr>g_of = (\<lambda>a. a), triples_of = (\<lambda>a. {})\<rparr> 0
        [\<lparr>subject = ''<a>'', predicate = ''<p>'', object = ''<b>''\<rparr>,
         \<lparr>subject = ''_:n1'', predicate = ''<q>'', object = ''plain''\<rparr>,
         \<lparr>subject = ''<c>'', predicate = ''r'', object = ''_:n2''\<rparr>] 2
     = Inr [(URIRef ''a'', URIRef ''p'', URIRef ''b''),
            (BNode ''n1'', URIRef ''q'', Literal ''plain'' None None),
            (URIRef ''c'', URIRef ''r'', BNode ''n2'')]
   \<and> DecodeBatch \<lparr>g_of = (\<lambda>a. a), triples_of = (\<lambda>a. {})\<rparr> 0
        [\<lparr>subject = ''<a>'', predicate = ''<p>'', object = ''<b>''\<rparr>,
         \<lparr>subject = ''_:n1'', predicate = ''<q>'', object = ''plain''\<rparr>,
         \<lparr>subject = ''<c>'', predicate = ''r'', object = ''_:n2''\<rparr>] 7
     = DecodeBatch \<lparr>g_of = (\<lambda>a. a), triples_of = (\<lambda>a. {})\<rparr> 0
        [\<lparr>subject = ''<a>'', predicate = ''<p>'', object = ''<b>''\<rparr>,
         \<lparr>subject = ''_:n1'', predicate = ''<q>'', object = ''plain''\<rparr>,
         \<lparr>subject = ''<c>'', predicate = ''r'', object = ''_:n2''\<rparr>] 2"
  using DecodeBatch_batch_size_invariant
    [of 2 7 "\<lparr>g_of = (\<lambda>a. a), triples_of = (\<lambda>a. {})\<rparr>" 0
        "[\<lparr>subject = ''<a>'', predicate = ''<p>'', object = ''<b>''\<rparr>,
          \<lparr>subject = ''_:n1'', predicate = ''<q>'', object = ''plain''\<rparr>,
          \<lparr>subject = ''<c>'', predicate = ''r'', object = ''_:n2''\<rparr>]"]
  by (simp add: decode_row_def parse_subject_def parse_predicate_def parse_object_def
      startswith_def endswith_def slice_def slice_from_def slice_index_def
      dquote_def squote_def)

section \<open>Round trips\<close>



text \<open>
  Claim C3. For every blank-node identifier \<open>i\<close> that does not itself begin with
  \<open>_:\<close>, the encoding of the blank node is the text \<open>_:i\<close>, and decoding that text
  in the subject or the object position gives the blank node back. Any subject or object
  field that starts with \<open>_:\<close> decodes to the blank node named by the text after that
  prefix. The same holds of whole rows: the row that \<open>save_parquet\<close> writes for a
  triple has the field \<open>_:i\<close> wherever the triple has the blank node as subject or as
  object, and decoding that row gives the blank node back in that position.
\<close>

theorem blank_node_round_trip:
  assumes "\<not> startswith i ''_:''"
  shows "n3 (BNode i) = ''_:'' @ i
       \<and> parse_subject (n3 (BNode i)) = BNode i
       \<and> parse_object (n3 (BNode i)) = BNode i
       \<and> (startswith f ''_:'' \<longrightarrow>
            (\<exists>t. f = ''_:'' @ t \<and> parse_subject f = BNode t \<and> parse_object f = BNode t))
       \<and> subject (encode_row (BNode i, p, ob)) = ''_:'' @ i
       \<and> object (encode_row (s, p, BNode i)) = ''_:'' @ i
       \<and> fst (decode_row (encode_row (BNode i, p, ob))) = BNode i
       \<and> snd (snd (decode_row (encode_row (s, p, BNode i)))) = BNode i
       \<and> map (\<lambda>r. (fst (decode_row r), snd (snd (decode_row r))))
              (save_parquet [(BNode i, p, BNode i)]) = [(BNode i, BNode i)]"
proof -
  have field: "startswith f ''_:'' \<longrightarrow>
            (\<exists>t. f = ''_:'' @ t \<and> parse_subject f = BNode t \<and> parse_object f = BNode t)"
  proof
    assume "startswith f ''_:''"
    then obtain t where "f = ''_:'' @ t" using startswith_pair [of f] by auto
    then show "\<exists>t. f = ''_:'' @ t \<and> parse_subject f = BNode t \<and> parse_object f = BNode t"
      using parse_subject_blank [of t] parse_object_blank [of t] by blast
  qed
  have enc: "n3 (BNode i) = ''_:'' @ i" by simp
  have es: "subject (encode_row (BNode i, p, ob)) = ''_:'' @ i"
    by (simp add: encode_row_def)
  have eo: "object (encode_row (s, p, BNode i)) = ''_:'' @ i"
    by (simp add: encode_row_def)
  have ds: "fst (decode_row (encode_row (BNode i, p, ob))) = BNode i"
    using parse_subject_blank [of i] by (simp add: decode_row_def encode_row_def)
  have d_o: "snd (snd (decode_row (encode_row (s, p, BNode i)))) = BNode i"
    using parse_object_blank [of i] by (simp add: decode_row_def encode_row_def)
  have sv: "map (\<lambda>r. (fst (decode_row r), snd (snd (decode_row r))))
              (save_parquet [(BNode i, p, BNode i)]) = [(BNode i, BNode i)]"
    using parse_subject_blank [of i] parse_object_blank [of i]
    by (simp add: save_parquet_def decode_row_def encode_row_def)
  from field enc es eo ds d_o sv show ?thesis
    by (simp only: parse_subject_blank parse_object_blank simp_thms)
qed

theorem blank_node_round_trip_witness:
  "\<not> startswith ''node10'' ''_:'' \<and> startswith ''_:b0'' ''_:''
   \<and> n3 (BNode ''node10'') = ''_:node10''
   \<and> parse_subject (n3 (BNode ''node10'')) = BNode ''node10''
   \<and> parse_object (n3 (BNode ''node10'')) = BNode ''node10''
   \<and> parse_subject ''_:b0'' = BNode ''b0'' \<and> parse_object ''_:b0'' = BNode ''b0''
   \<and> encode_row (BNode ''node10'', URIRef ''ex:knows'', BNode ''node10'')
        = \<lparr>subject = ''_:node10'', predicate = ''<ex:knows>'', object = ''_:node10''\<rparr>
   \<and> decode_row (encode_row (BNode ''node10'', URIRef ''ex:knows'', BNode ''node10''))
        = (BNode ''node10'', URIRef ''ex:knows'', BNode ''node10'')
   \<and> map decode_row (save_parquet [(BNode ''node10'', URIRef ''ex:knows'', BNode ''node10'')])
        = [(BNode ''node10'', URIRef ''ex:knows'', BNode ''node10'')]"
  using blank_node_round_trip [of "''node10''" "''_:b0''" "URIRef ''ex:knows''"
      "BNode ''node10''" "BNode ''node10''"]
  by (simp add: startswith_def endswith_def encode_row_def decode_row_def save_parquet_def
      parse_subject_def parse_predicate_def parse_object_def
      slice_def slice_from_def slice_index_def)



text \<open>
  Claim C8. The three triples about \<open>ex:John\<close> are written by \<open>save_parquet\<close> and the
  rows are loaded, with the default batch size, into a wrapper whose graph is empty. The
  load returns the wrapper; its graph then holds exactly the three original triples, with
  every subject, predicate and IRI object as it was and the object literal \<open>John Doe\<close>
  with that lexical value and no quotes; and they were decoded in the order written.
\<close>

theorem end_to_end_three_triples:
  "\<exists>h'. load_parquet (h\<lparr>triples_of := (triples_of h)(g_of h self := {})\<rparr>) self
           (save_parquet
              [(URIRef ''ex:John'', URIRef ''rdf:type'', URIRef ''ex:Person''),
               (URIRef ''ex:John'', URIRef ''ex:name'', Literal ''John Doe'' None None),
               (URIRef ''ex:John'', URIRef ''ex:knows'', URIRef ''ex:Jane'')])
           100000 = Inr (h', self)
      \<and> triples_of h' (g_of h' self) =
           {(URIRef ''ex:John'', URIRef ''rdf:type'', URIRef ''ex:Person''),
            (URIRef ''ex:John'', URIRef ''ex:name'', Literal ''John Doe'' None None),
            (URIRef ''ex:John'', URIRef ''ex:knows'', URIRef ''ex:Jane'')}
      \<and> card (triples_of h' (g_of h' self)) = 3
      \<and> DecodeBatch (h\<lparr>triples_of := (triples_of h)(g_of h self := {})\<rparr>) self
           (save_parquet
              [(URIRef ''ex:John'', URIRef ''rdf:type'', URIRef ''ex:Person''),
               (URIRef ''ex:John'', URIRef ''ex:name'', Literal ''John Doe'' None None),
               (URIRef ''ex:John'', URIRef ''ex:knows'', URIRef ''ex:Jane'')])
           100000 =
         Inr [(URIRef ''ex:John'', URIRef ''rdf:type'', URIRef ''ex:Person''),
              (URIRef ''ex:John'', URIRef ''ex:name'', Literal ''John Doe'' None None),
              (URIRef ''ex:John'', URIRef ''ex:knows'', URIRef ''ex:Jane'')]"
proof -
  have q: "parse_object (n3 (Literal ''John Doe'' None None)) = Literal ''John Doe'' None None"
    by (simp add: parse_object_def startswith_def endswith_def strip_def dquote_def squote_def)
  have rows: "map decode_row (save_parquet
              [(URIRef ''ex:John'', URIRef ''rdf:type'', URIRef ''ex:Person''),
               (URIRef ''ex:John'', URIRef ''ex:name'', Literal ''John Doe'' None None),
               (URIRef ''ex:John'', URIRef ''ex:knows'', URIRef ''ex:Jane'')])
        = [(URIRef ''ex:John'', URIRef ''rdf:type'', URIRef ''ex:Person''),
           (URIRef ''ex:John'', URIRef ''ex:name'', Literal ''John Doe'' None None),
           (URIRef ''ex:John'', URIRef ''ex:knows'', URIRef ''ex:Jane'')]"
    using q
    by (simp add: save_parquet_def encode_row_def decode_row_def)
       (simp add: parse_subject_def parse_predicate_def parse_object_def
        startswith_def endswith_def slice_def slice_index_def)
  have k: "(1::int) \<le> 100000" by simp
  let ?h0 = "h\<lparr>triples_of := (triples_of h)(g_of h self := {})\<rparr>"
  let ?ts = "[(URIRef ''ex:John'', URIRef ''rdf:type'', URIRef ''ex:Person''),
              (URIRef ''ex:John'', URIRef ''ex:name'', Literal ''John Doe'' None None),
              (URIRef ''ex:John'', URIRef ''ex:knows'', URIRef ''ex:Jane'')]"
  let ?h' = "add_triples ?h0 self ?ts"
  have run: "load_parquet ?h0 self (save_parquet ?ts) 100000 = Inr (?h', self)"
    by (simp only: load_parquet_eq [OF k] rows)
  have dec: "DecodeBatch ?h0 self (save_parquet ?ts) 100000 = Inr ?ts"
    by (simp only: DecodeBatch_def load_parquet_run_eq [OF k] rows) simp
  have "triples_of ?h' (g_of ?h' self) = triples_of ?h0 (g_of ?h0 self) \<union> set ?ts"
    by (rule graph_after_add_triples)
  then have graph: "triples_of ?h' (g_of ?h' self) = set ?ts"
    by (simp del: add_triples.simps)
  have set3: "set ?ts = {(URIRef ''ex:John'', URIRef ''rdf:type'', URIRef ''ex:Person''),
            (URIRef ''ex:John'', URIRef ''ex:name'', Literal ''John Doe'' None None),
            (URIRef ''ex:John'', URIRef ''ex:knows'', URIRef ''ex:Jane'')}"
    by simp
  have card3: "card (set ?ts) = 3" by simp
  from run dec graph set3 card3 show ?thesis
    by (intro exI [of _ ?h']) (simp only: simp_thms)
qed

section \<open>The decode rules and their order\<close>

text \<open>
  Claim C6. A predicate field that does not both start with \<open><\<close> and end with
  \<open>>\<close> decodes to the IRI whose text is the field itself, unchanged; the predicate of
  the decoded row is never a blank node and never a literal.
\<close>

theorem predicate_always_URIRef:
  assumes "\<not> (startswith (predicate r) ''<'' \<and> endswith (predicate r) ''>'')"
  shows "parse_predicate (predicate r) = URIRef (predicate r)
       \<and> fst (snd (decode_row r)) = URIRef (predicate r)
       \<and> (\<forall>i. fst (snd (decode_row r)) \<noteq> BNode i)
       \<and> (\<forall>l d t. fst (snd (decode_row r)) \<noteq> Literal l d t)"
  using assms by (auto simp: decode_row_def parse_predicate_def Let_def)

theorem predicate_always_URIRef_witness:
  "\<not> (startswith (predicate \<lparr>subject = ''<s>'', predicate = ''_:b1'', object = ''<o>''\<rparr>) ''<''
      \<and> endswith (predicate \<lparr>subject = ''<s>'', predicate = ''_:b1'', object = ''<o>''\<rparr>) ''>'')
   \<and> \<not> (startswith (predicate \<lparr>subject = ''<s>'', predicate = [dquote, CHR ''x'', dquote], object = ''<o>''\<rparr>) ''<''
      \<and> endswith (predicate \<lparr>subject = ''<s>'', predicate = [dquote, CHR ''x'', dquote], object = ''<o>''\<rparr>) ''>'')
   \<and> decode_row \<lparr>subject = ''<s>'', predicate = ''_:b1'', object = ''<o>''\<rparr>
       = (URIRef ''s'', URIRef ''_:b1'', URIRef ''o'')
   \<and> decode_row \<lparr>subject = ''<s>'', predicate = [dquote, CHR ''x'', dquote], object = ''<o>''\<rparr>
       = (URIRef ''s'', URIRef [dquote, CHR ''x'', dquote], URIRef ''o'')"
  using predicate_always_URIRef [of "\<lparr>subject = ''<s>'', predicate = ''_:b1'', object = ''<o>''\<rparr>"]
    predicate_always_URIRef [of "\<lparr>subject = ''<s>'', predicate = [dquote, CHR ''x'', dquote], object = ''<o>''\<rparr>"]
  by (simp add: decode_row_def startswith_def endswith_def dquote_def
      parse_subject_angle [of "''s''", simplified] parse_object_angle [of "''o''", simplified])

text \<open>
  Claim C7. The bracket rule comes first: a subject or object field that starts with
  \<open><\<close> and ends with \<open>>\<close> decodes to the IRI of the text between the brackets,
  and not to the literal that the last rule would make of the same text.
\<close>

theorem angle_rule_first:
  assumes "startswith f ''<''" and "endswith f ''>''"
  shows "parse_subject f = URIRef (slice f 1 (- 1))
       \<and> parse_object f = URIRef (slice f 1 (- 1))
       \<and> (\<exists>m. f = ''<'' @ m @ ''>'' \<and> slice f 1 (- 1) = m)
       \<and> parse_subject f \<noteq> Literal f None None
       \<and> parse_object f \<noteq> Literal f None None"
proof -
  from assms obtain m where m: "f = CHR ''<'' # m @ ''>''" using angle_form [of f] by blast
  then have "slice f 1 (- 1) = m" by (simp only: slice_enclosed)
  with m show ?thesis
    using assms by (simp add: parse_subject_def parse_object_def)
qed

theorem angle_rule_first_witness:
  "startswith ''<not an iri>'' ''<'' \<and> endswith ''<not an iri>'' ''>''
   \<and> parse_subject ''<not an iri>'' = URIRef ''not an iri''
   \<and> parse_object ''<not an iri>'' = URIRef ''not an iri''"
  using angle_rule_first [of "''<not an iri>''"]
  by (simp add: startswith_def endswith_def slice_def slice_index_def)

text \<open>
  Claim C9. A field that starts with a double or a single quote is decoded differently
  in the two positions. As object it becomes the literal of \<open>strip\<close> of the field: the
  field is a run of quote characters, then the stripped text, then a run of quote
  characters, and the stripped text, unless empty, neither begins nor ends with a quote.
  As subject it becomes the literal of the whole field, quotes included. The two results
  differ.
\<close>

theorem quoted_subject_vs_object:
  assumes "startswith f [dquote] \<or> startswith f [squote]"
  shows "parse_object f = Literal (strip f [dquote, squote]) None None
       \<and> parse_subject f = Literal f None None
       \<and> parse_subject f \<noteq> parse_object f
       \<and> (\<exists>pre post. f = pre @ strip f [dquote, squote] @ post
              \<and> set pre \<subseteq> {dquote, squote} \<and> set post \<subseteq> {dquote, squote})
       \<and> (strip f [dquote, squote] \<noteq> [] \<longrightarrow>
              hd (strip f [dquote, squote]) \<notin> {dquote, squote}
            \<and> last (strip f [dquote, squote]) \<notin> {dquote, squote})"
proof -
  from assms obtain c t where f: "f = c # t" and c: "c = dquote \<or> c = squote"
    by (auto simp: startswith_single)
  from f c have na: "\<not> startswith f ''<''" and nb: "\<not> startswith f ''_:''"
    using quote_not_angle by (auto simp: startswith_single startswith_pair)
  from na nb assms have obj: "parse_object f = Literal (strip f [dquote, squote]) None None"
    by (simp add: parse_object_def)
  from na nb have subj: "parse_subject f = Literal f None None"
    by (simp add: parse_subject_def)
  from f c have "length (strip f [dquote, squote]) < length f"
    by (intro strip_shorter [of f c t]) auto
  then have "strip f [dquote, squote] \<noteq> f" by auto
  with obj subj have ne: "parse_subject f \<noteq> parse_object f" by simp
  from strip_decomp [of f "[dquote, squote]"]
  have dec: "\<exists>pre post. f = pre @ strip f [dquote, squote] @ post
              \<and> set pre \<subseteq> {dquote, squote} \<and> set post \<subseteq> {dquote, squote}"
    by simp
  from strip_ends [of f "[dquote, squote]"]
  have ends: "strip f [dquote, squote] \<noteq> [] \<longrightarrow>
              hd (strip f [dquote, squote]) \<notin> {dquote, squote}
            \<and> last (strip f [dquote, squote]) \<notin> {dquote, squote}"
    by simp
  from obj subj ne dec ends show ?thesis by blast
qed

theorem quoted_subject_vs_object_witness:
  "(startswith (dquote # ''John Doe'' @ [dquote]) [dquote]
      \<or> startswith (dquote # ''John Doe'' @ [dquote]) [squote])
   \<and> parse_object (dquote # ''John Doe'' @ [dquote]) = Literal ''John Doe'' None None
   \<and> parse_subject (dquote # ''John Doe'' @ [dquote])
        = Literal (dquote # ''John Doe'' @ [dquote]) None None
   \<and> strip (dquote # ''John Doe'' @ [dquote]) [dquote, squote] = ''John Doe''
   \<and> strip (dquote # ''John Doe'' @ [dquote]) [dquote, squote] \<noteq> []"
  using quoted_subject_vs_object [of "dquote # ''John Doe'' @ [dquote]"]
  by (simp add: startswith_def strip_def dquote_def squote_def)

text \<open>
  Claim C5. Loading never fails on the content of a row: for every batch size
  \<open>k \<ge> 1\<close> and every row \<open>r\<close> of the frame, whatever its fields, the load returns and
  the triple decoded from \<open>r\<close> is in the graph. An empty subject or object field decodes
  to the literal with empty lexical value, no datatype and no language; an empty
  predicate field decodes to the IRI with empty text.
\<close>

theorem empty_field_decodes:
  assumes "1 \<le> k" and "r \<in> set df"
  shows "\<exists>h'. load_parquet h self df k = Inr (h', self)
            \<and> decode_row r \<in> triples_of h' (g_of h' self)
            \<and> (subject r = [] \<longrightarrow> fst (decode_row r) = Literal [] None None)
            \<and> (predicate r = [] \<longrightarrow> fst (snd (decode_row r)) = URIRef [])
            \<and> (object r = [] \<longrightarrow> snd (snd (decode_row r)) = Literal [] None None)"
proof -
  have s: "parse_subject [] = Literal [] None None"
    by (simp add: parse_subject_def startswith_def)
  have p: "parse_predicate [] = URIRef []"
    by (simp add: parse_predicate_def startswith_def)
  have ob: "parse_object [] = Literal [] None None"
    by (simp add: parse_object_def startswith_def)
  from assms have "decode_row r \<in> triples_of (add_triples h self (map decode_row df))
                     (g_of (add_triples h self (map decode_row df)) self)"
    by (simp add: graph_after_add_triples)
  with assms s p ob show ?thesis
    by (auto simp: load_parquet_eq decode_row_def)
qed

theorem empty_field_decodes_witness:
  "(1::int) \<le> 1
   \<and> \<lparr>subject = [], predicate = [], object = []\<rparr> \<in> set [\<lparr>subject = [], predicate = [], object = []\<rparr>]
   \<and> subject \<lparr>subject = [], predicate = [], object = []\<rparr> = []
   \<and> predicate \<lparr>subject = [], predicate = [], object = []\<rparr> = []
   \<and> object \<lparr>subject = [], predicate = [], object = []\<rparr> = []
   \<and> (\<exists>h'. load_parquet \<lparr>g_of = (\<lambda>a. a), triples_of = (\<lambda>a. {})\<rparr> 0
               [\<lparr>subject = [], predicate = [], object = []\<rparr>] 1 = Inr (h', 0)
          \<and> (Literal [] None None, URIRef [], Literal [] None None) \<in> triples_of h' (g_of h' 0))
   \<and> decode_row \<lparr>subject = [], predicate = [], object = []\<rparr>
        = (Literal [] None None, URIRef [], Literal [] None None)"
  using empty_field_decodes
    [of 1 "\<lparr>subject = [], predicate = [], object = []\<rparr>"
        "[\<lparr>subject = [], predicate = [], object = []\<rparr>]"
        "\<lparr>g_of = (\<lambda>a. a), triples_of = (\<lambda>a. {})\<rparr>" 0]
  by (auto simp: decode_row_def parse_subject_def parse_predicate_def parse_object_def
      startswith_def)

section \<open>The effect of a load on the store\<close>

text \<open>
  Claim C10. For every store, every frame and every batch size other than zero,
  \<open>load_parquet\<close> returns the reference \<open>self\<close> it was called on; every triple that
  was in the graph of \<open>self\<close> is still in it; the wrapper still holds the same graph
  object; no other graph object changes; and for \<open>k \<ge> 1\<close> the graph is the old graph
  together with the decoded rows, so loads accumulate.
\<close>

theorem load_parquet_only_adds:
  assumes "k \<noteq> 0"
  shows "\<exists>h'. load_parquet h self df k = Inr (h', self)
            \<and> triples_of h (g_of h self) \<subseteq> triples_of h' (g_of h' self)
            \<and> g_of h' = g_of h
            \<and> (a \<noteq> g_of h self \<longrightarrow> triples_of h' a = triples_of h a)
            \<and> (1 \<le> k \<longrightarrow> triples_of h' (g_of h' self)
                              = triples_of h (g_of h self) \<union> set (map decode_row df))"
proof (cases "1 \<le> k")
  case True
  then show ?thesis
    by (simp add: load_parquet_eq triples_of_add_triples g_of_add_triples)
next
  case False
  with assms have "k < 0" by simp
  then show ?thesis by (simp add: load_parquet_negative)
qed

theorem load_parquet_only_adds_witness:
  "(2::int) \<noteq> 0 \<and> (1::nat) \<noteq> g_of \<lparr>g_of = (\<lambda>a. a), triples_of = (\<lambda>a. {(URIRef ''s'', URIRef ''p'', URIRef ''o'')})\<rparr> 0
   \<and> (1::int) \<le> 2
   \<and> (\<exists>h'. load_parquet \<lparr>g_of = (\<lambda>a. a), triples_of = (\<lambda>a. {(URIRef ''s'', URIRef ''p'', URIRef ''o'')})\<rparr> 0
               [\<lparr>subject = ''<a>'', predicate = ''<b>'', object = ''c''\<rparr>] 2 = Inr (h', 0)
          \<and> triples_of h' 0 = {(URIRef ''s'', URIRef ''p'', URIRef ''o''),
                                (URIRef ''a'', URIRef ''b'', Literal ''c'' None None)}
          \<and> triples_of h' 1 = {(URIRef ''s'', URIRef ''p'', URIRef ''o'')})"
  using load_parquet_only_adds
    [of 2 "\<lparr>g_of = (\<lambda>a. a), triples_of = (\<lambda>a. {(URIRef ''s'', URIRef ''p'', URIRef ''o'')})\<rparr>" 0
        "[\<lparr>subject = ''<a>'', predicate = ''<b>'', object = ''c''\<rparr>]" 1]
  by (auto simp: decode_row_def parse_subject_def parse_predicate_def parse_object_def
      startswith_def endswith_def slice_def slice_index_def dquote_def squote_def)

end
